theory Spec2Isabelle
  imports Complex_Main "HOL-Library.Multiset" "HOL-Library.Log_Nat"
begin

section \<open>Data model of \<open>backend/main.py\<close>\<close>

text \<open>
  Python floats are modelled as reals: arithmetic is exact and every input is finite.
  The one place where the rounding of binary64 arithmetic decides the result, the decimal
  that is printed into an insight, computes that rounding (\<open>round_double\<close> below).
  The only non-finite value the analytics produce, \<open>float('inf')\<close>, is a constructor
  of its own. \<open>datetime\<close> is a timestamp. The field \<open>notes\<close> is \<open>trade_notes\<close>,
  as \<open>notes\<close> is reserved.
\<close>

record market_condition =
  name :: string
  description :: "string option"

record trade_entry =
  entry_date :: int
  symbol :: string
  entry_price :: real
  exit_price :: real
  position_size :: real
  trade_type :: string
  market_conditions :: "string list"
  trade_notes :: string
  chart_images :: "string list"

datatype py_float = Fin real | Inf

record trade_analysis =
  win_rate :: real
  profit_factor :: py_float
  average_win :: real
  average_loss :: real
  best_conditions :: "string list"
  pattern_insights :: "string list"

record pattern_report =
  important_factors :: "(string \<times> real) list"
  success_patterns :: "string list"

text \<open>The two module-level lists \<open>trades\<close> and \<open>market_conditions\<close>.\<close>

record store =
  trades :: "trade_entry list"
  conditions :: "market_condition list"

datatype error = HTTPException nat string | ZeroDivisionError | ValueError string

section \<open>Python primitives\<close>

text \<open>\<open>a / b\<close> on numbers raises \<open>ZeroDivisionError\<close> when \<open>b\<close> is zero.\<close>

definition truediv :: "real \<Rightarrow> real \<Rightarrow> error + real" where
  "truediv a b = (if b = 0 then Inl ZeroDivisionError else Inr (a / b))"

text \<open>Sequencing of two computations that may raise: the first error wins.\<close>

definition bind_err :: "error + 'a \<Rightarrow> ('a \<Rightarrow> error + 'b) \<Rightarrow> error + 'b" where
  "bind_err m f = (case m of Inl e \<Rightarrow> Inl e | Inr x \<Rightarrow> f x)"

text \<open>A comprehension whose element expression may raise.\<close>

fun mapM :: "('a \<Rightarrow> error + 'b) \<Rightarrow> 'a list \<Rightarrow> error + 'b list" where
  "mapM f [] = Inr []"
| "mapM f (x # xs) = bind_err (f x) (\<lambda>y. bind_err (mapM f xs) (\<lambda>ys. Inr (y # ys)))"

text \<open>
  \<open>sorted(xs, key=key, reverse=True)\<close>: CPython reverses the list, sorts it stably in
  ascending order of the key and reverses the result, so that equal keys keep the order
  they had in \<open>xs\<close>.
\<close>

definition sorted_reverse :: "('a \<Rightarrow> real) \<Rightarrow> 'a list \<Rightarrow> 'a list" where
  "sorted_reverse key xs = rev (sort_key key (rev xs))"

text \<open>\<open>sum\<close> of a list of booleans counts the \<open>True\<close> entries.\<close>

definition sum_bools :: "bool list \<Rightarrow> nat" where
  "sum_bools bs = length (filter (\<lambda>b. b) bs)"

text \<open>
  The format specification \<open>.1f\<close>: the exact value rounded to one decimal, a tie going
  to the even neighbour, printed in decimal with a sign for negative values.
\<close>

definition digit_char :: "nat \<Rightarrow> char" where
  "digit_char d = ''0123456789'' ! d"

fun show_nat :: "nat \<Rightarrow> string" where
  "show_nat n = (if n < 10 then [digit_char n] else show_nat (n div 10) @ [digit_char (n mod 10)])"

declare show_nat.simps [simp del]

definition round_half_even :: "real \<Rightarrow> int" where
  "round_half_even x =
     (let n = \<lfloor>x\<rfloor>; r = x - of_int n
      in if r < 1 / 2 then n else if 1 / 2 < r then n + 1
         else if even n then n else n + 1)"

definition format_1f :: "real \<Rightarrow> string" where
  "format_1f x =
     (let q = nat (round_half_even (\<bar>x\<bar> * 10))
      in (if x < 0 then ''-'' else '''') @ show_nat (q div 10) @ ''.'' @ [digit_char (q mod 10)])"

text \<open>
  The value that is printed is a binary64 number, and its last digit depends on how the
  quotient and the product were rounded. \<open>round_double\<close> rounds a real to 53 significant
  bits, to nearest with ties to even, as the arithmetic of a Python float does; the
  exponent range is not limited. \<open>exponent x\<close> is the power of two at or below \<open>x\<close>.
\<close>

definition exponent :: "real \<Rightarrow> int" where
  "exponent x =
     (if 1 \<le> x then int (floorlog 2 (nat \<lfloor>x\<rfloor>)) - 1
      else - int (floorlog 2 (nat (\<lceil>1 / x\<rceil> - 1))))"

definition round_double :: "real \<Rightarrow> real" where
  "round_double x =
     (if x = 0 then 0
      else let u = 2 powi (exponent \<bar>x\<bar> - 52)
           in sgn x * of_int (round_half_even (\<bar>x\<bar> / u)) * u)"

text \<open>Reading a decimal numeral back, to say what \<open>show_nat\<close> prints.\<close>

definition digit_val :: "char \<Rightarrow> nat" where
  "digit_val c = length (takeWhile (\<lambda>x. x \<noteq> c) ''0123456789'')"

definition read_nat :: "string \<Rightarrow> nat" where
  "read_nat s = foldl (\<lambda>n c. 10 * n + digit_val c) 0 s"

section \<open>The trade model\<close>

definition profit_loss :: "trade_entry \<Rightarrow> real" where
  "profit_loss t =
     (let multiplier = (if trade_type t = ''long'' then 1 else - 1)
      in multiplier * (exit_price t - entry_price t) * position_size t)"

definition create_trade :: "trade_entry \<Rightarrow> store \<Rightarrow> trade_entry \<times> store" where
  "create_trade trade s = (trade, s\<lparr>trades := trades s @ [trade]\<rparr>)"

definition get_trades :: "store \<Rightarrow> trade_entry list \<times> store" where
  "get_trades s = (trades s, s)"

section \<open>Performance analysis\<close>

text \<open>
  \<open>condition_performance\<close> is a dict, which keeps its keys in insertion order: an
  association list. One step of the inner loop creates the entry when the key is new and
  appends the outcome to its list.
\<close>

fun dict_append :: "(string \<times> bool list) list \<Rightarrow> string \<Rightarrow> bool \<Rightarrow> (string \<times> bool list) list" where
  "dict_append [] k v = [(k, [v])]"
| "dict_append ((k', vs) # d) k v =
     (if k' = k then (k', vs @ [v]) # d else (k', vs) # dict_append d k v)"

definition condition_performance :: "trade_entry list \<Rightarrow> (string \<times> bool list) list" where
  "condition_performance ts =
     foldl (\<lambda>d trade. foldl (\<lambda>d' condition. dict_append d' condition (0 < profit_loss trade))
                         d (market_conditions trade)) [] ts"

text \<open>The sort key \<open>lambda x: sum(x[1]) / len(x[1])\<close>.\<close>

definition rate_key :: "string \<times> bool list \<Rightarrow> error + real" where
  "rate_key x = truediv (real (sum_bools (snd x))) (real (length (snd x)))"

text \<open>
  One entry of \<open>pattern_insights\<close>. The rate and its product with 100 are rounded as
  binary64 arithmetic rounds them before the value is formatted.
\<close>

definition insight :: "string \<times> bool list \<Rightarrow> error + string" where
  "insight c =
     bind_err (truediv (real (sum_bools (snd c))) (real (length (snd c))))
       (\<lambda>r. Inr (''Best win rate in '' @ fst c @ '': '' @
                 format_1f (round_double (round_double r * 100)) @ ''%''))"

text \<open>
  \<open>analyze_performance\<close> with the global \<open>trades\<close> as its argument. \<open>np.mean\<close> is only
  called on a non-empty list, where it is the sum over the length. The keys of the sort
  are all computed before the list is sorted.
\<close>

definition analyze_performance :: "trade_entry list \<Rightarrow> error + trade_analysis" where
  "analyze_performance ts =
     (if ts = [] then Inl (HTTPException 404 ''No trades found'')
      else
        let winning_trades = filter (\<lambda>t. 0 < profit_loss t) ts in
        bind_err (truediv (real (length winning_trades)) (real (length ts))) (\<lambda>wr.
        let profits = map profit_loss (filter (\<lambda>t. 0 < profit_loss t) ts);
            losses = map (\<lambda>t. \<bar>profit_loss t\<bar>) (filter (\<lambda>t. profit_loss t < 0) ts);
            avg_win = (if profits \<noteq> [] then sum_list profits / real (length profits) else 0);
            avg_loss = (if losses \<noteq> [] then sum_list losses / real (length losses) else 0)
        in
        bind_err (if losses \<noteq> []
                  then bind_err (truediv (sum_list profits) \<bar>sum_list losses\<bar>) (\<lambda>q. Inr (Fin q))
                  else Inr Inf) (\<lambda>pf.
        let items = condition_performance ts in
        bind_err (mapM rate_key items) (\<lambda>keys.
        let best = take 3 (map snd (sorted_reverse fst (zip keys items))) in
        bind_err (mapM insight best) (\<lambda>insights.
        Inr \<lparr>win_rate = wr, profit_factor = pf, average_win = avg_win,
             average_loss = avg_loss, best_conditions = map fst best,
             pattern_insights = insights\<rparr>)))))"

section \<open>Pattern analysis\<close>

text \<open>
  \<open>set().union(*[t.market_conditions for t in trades])\<close> inserts the labels of all trades
  into a fresh set. The order in which a set of strings is iterated depends on the hash
  seed of the process; it is the parameter \<open>set_iter\<close>, from the inserted sequence to the
  iteration order. The classifier is the parameter \<open>clf\<close>: fitting it on the feature
  matrix and the labels either raises a \<open>ValueError\<close> with a message, as the input
  validation of the library does, or gives \<open>feature_importances_\<close>.
\<close>

definition union_conditions :: "(string list \<Rightarrow> string list) \<Rightarrow> trade_entry list \<Rightarrow> string list" where
  "union_conditions set_iter ts = set_iter (concat (map market_conditions ts))"

definition feature_row :: "(string list \<Rightarrow> string list) \<Rightarrow> trade_entry list \<Rightarrow> trade_entry \<Rightarrow> real list" where
  "feature_row set_iter ts trade =
     (let condition_features =
            map (\<lambda>cond. if cond \<in> set (market_conditions trade) then 1 else 0)
              (union_conditions set_iter ts)
      in [if trade_type trade = ''long'' then 1 else 0, position_size trade] @ condition_features)"

definition features :: "(string list \<Rightarrow> string list) \<Rightarrow> trade_entry list \<Rightarrow> real list list" where
  "features set_iter ts = map (feature_row set_iter ts) ts"

definition labels :: "trade_entry list \<Rightarrow> nat list" where
  "labels ts = map (\<lambda>trade. if 0 < profit_loss trade then 1 else 0) ts"

definition feature_names :: "(string list \<Rightarrow> string list) \<Rightarrow> trade_entry list \<Rightarrow> string list" where
  "feature_names set_iter ts = [''trade_type'', ''position_size''] @ union_conditions set_iter ts"

definition importance :: "string list \<Rightarrow> real list \<Rightarrow> (string \<times> real) list" where
  "importance names scores = sorted_reverse snd (zip names scores)"

definition analyze_patterns ::
  "(string list \<Rightarrow> string list) \<Rightarrow> (real list list \<Rightarrow> nat list \<Rightarrow> string + real list) \<Rightarrow>
   trade_entry list \<Rightarrow> error + pattern_report" where
  "analyze_patterns set_iter clf ts =
     (if length ts < 10
      then Inl (HTTPException 400 ''Need at least 10 trades for pattern analysis'')
      else
        case clf (features set_iter ts) (labels ts) of
          Inl msg \<Rightarrow> Inl (ValueError msg)
        | Inr scores \<Rightarrow>
            let imp = importance (feature_names set_iter ts) scores in
            Inr \<lparr>important_factors = take 5 imp,
                 success_patterns =
                   map (\<lambda>i. ''High correlation between '' @ fst (imp ! i) @ '' and profitable trades'')
                     [0 ..< min 3 (length imp)]\<rparr>)"

section \<open>The application\<close>

text \<open>
  The routes of \<open>app\<close> over the two module-level lists. What a request cannot read from
  the lists is in the runtime: the iteration order of sets, which changes with the hash
  seed, and the classifier, which draws random numbers at every fit.
\<close>

datatype request =
    Root
  | CreateTrade trade_entry
  | GetTrades
  | CreateMarketCondition market_condition
  | GetMarketConditions
  | UploadChartImage int string
  | AnalyzePerformance
  | AnalyzePatterns

datatype response =
    Message string
  | Trade trade_entry
  | Trades "trade_entry list"
  | Condition market_condition
  | Conditions "market_condition list"
  | Filename string
  | Analysis trade_analysis
  | Patterns pattern_report

record runtime =
  hash_order :: "string list \<Rightarrow> string list"
  classifier :: "real list list \<Rightarrow> nat list \<Rightarrow> string + real list"

definition create_market_condition :: "market_condition \<Rightarrow> store \<Rightarrow> market_condition \<times> store" where
  "create_market_condition condition s = (condition, s\<lparr>conditions := conditions s @ [condition]\<rparr>)"

definition get_market_conditions :: "store \<Rightarrow> market_condition list \<times> store" where
  "get_market_conditions s = (conditions s, s)"

fun handle :: "runtime \<Rightarrow> request \<Rightarrow> store \<Rightarrow> (error + response) \<times> store" where
  "handle rt Root s = (Inr (Message ''AI Trading Journal API''), s)"
| "handle rt (CreateTrade trade) s =
     (Inr (Trade (fst (create_trade trade s))), snd (create_trade trade s))"
| "handle rt GetTrades s = (Inr (Trades (fst (get_trades s))), snd (get_trades s))"
| "handle rt (CreateMarketCondition condition) s =
     (Inr (Condition (fst (create_market_condition condition s))),
      snd (create_market_condition condition s))"
| "handle rt GetMarketConditions s =
     (Inr (Conditions (fst (get_market_conditions s))), snd (get_market_conditions s))"
| "handle rt (UploadChartImage trade_id filename) s = (Inr (Filename filename), s)"
| "handle rt AnalyzePerformance s = (map_sum id Analysis (analyze_performance (trades s)), s)"
| "handle rt AnalyzePatterns s =
     (map_sum id Patterns (analyze_patterns (hash_order rt) (classifier rt) (trades s)), s)"

text \<open>A sequence of requests, each served under its own runtime.\<close>

fun run :: "(runtime \<times> request) list \<Rightarrow> store \<Rightarrow> store" where
  "run [] s = s"
| "run (rq # rqs) s = run rqs (snd (handle (fst rq) (snd rq) s))"


section \<open>Characterisation of the condition ranking\<close>

text \<open>The distinct elements of a list, each at the place of its first occurrence.\<close>

primrec first_seen :: "'a list \<Rightarrow> 'a list" where
  "first_seen [] = []"
| "first_seen (x # xs) = x # removeAll x (first_seen xs)"

text \<open>Every label occurrence of every trade, in the order in which the code visits them.\<close>

definition all_labels :: "trade_entry list \<Rightarrow> string list" where
  "all_labels ts = concat (map market_conditions ts)"

text \<open>
  Occurrences of a label in the lists of winning trades over its occurrences in the lists
  of all trades.
\<close>

definition label_win_rate :: "trade_entry list \<Rightarrow> string \<Rightarrow> real" where
  "label_win_rate ts l =
     real (count_list (all_labels (filter (\<lambda>t. 0 < profit_loss t) ts)) l) /
     real (count_list (all_labels ts) l)"

text \<open>The labels in first-seen order, sorted by descending rate as \<open>sorted\<close> does.\<close>

definition ranked_labels :: "trade_entry list \<Rightarrow> string list" where
  "ranked_labels ts = sorted_reverse (label_win_rate ts) (first_seen (all_labels ts))"

definition insight_text :: "trade_entry list \<Rightarrow> string \<Rightarrow> string" where
  "insight_text ts l =
     ''Best win rate in '' @ l @ '': '' @
     format_1f (round_double (round_double (label_win_rate ts l) * 100)) @ ''%''"

text \<open>The appends to \<open>condition_performance\<close> in the order in which the nested iteration makes them.\<close>

definition events :: "trade_entry list \<Rightarrow> (string \<times> bool) list" where
  "events ts = concat (map (\<lambda>t. map (\<lambda>c. (c, 0 < profit_loss t)) (market_conditions t)) ts)"

definition outcomes :: "(string \<times> bool) list \<Rightarrow> string \<Rightarrow> bool list" where
  "outcomes ev k = map snd (filter (\<lambda>e. fst e = k) ev)"

text \<open>
  The rate in the words of the specification: trades that carry the label and win, over
  trades that carry the label.
\<close>

definition spec_label_win_rate :: "trade_entry list \<Rightarrow> string \<Rightarrow> real" where
  "spec_label_win_rate ts l =
     real (length (filter (\<lambda>t. 0 < profit_loss t \<and> l \<in> set (market_conditions t)) ts)) /
     real (length (filter (\<lambda>t. l \<in> set (market_conditions t)) ts))"

section \<open>Sample inputs\<close>

definition trade0 :: trade_entry where
  "trade0 = \<lparr>entry_date = 0, symbol = ''ACME'', entry_price = 100, exit_price = 110,
     position_size = 1, trade_type = ''long'', market_conditions = [''trend''],
     trade_notes = [], chart_images = []\<rparr>"

definition mixed_trades :: "trade_entry list" where
  "mixed_trades =
     [trade0,
      trade0\<lparr>exit_price := 100, market_conditions := [''range'']\<rparr>,
      trade0\<lparr>exit_price := 90, market_conditions := [''range'', ''news'']\<rparr>]"

definition tie_trades :: "trade_entry list" where
  "tie_trades =
     [trade0\<lparr>exit_price := 90, market_conditions := [''a'', ''b'']\<rparr>,
      trade0\<lparr>market_conditions := [''c'', ''b'', ''d'']\<rparr>,
      trade0\<lparr>market_conditions := [''d'', ''e'']\<rparr>]"

definition flat_trades :: "trade_entry list" where
  "flat_trades = [trade0\<lparr>exit_price := 100\<rparr>, trade0\<lparr>exit_price := 100, trade_type := ''short''\<rparr>]"

definition all_win_trades :: "trade_entry list" where
  "all_win_trades = [trade0, trade0\<lparr>entry_price := 50, exit_price := 40, trade_type := ''short''\<rparr>]"

definition dup_trades :: "trade_entry list" where
  "dup_trades =
     [trade0\<lparr>market_conditions := [''x'', ''x'']\<rparr>,
      trade0\<lparr>exit_price := 90, market_conditions := [''x'']\<rparr>]"

definition ten_trades :: "trade_entry list" where
  "ten_trades =
     map (\<lambda>p. trade0\<lparr>exit_price := p,
                      market_conditions := (if p < 100 then [''range''] else [''trend'', ''news''])\<rparr>)
       [90, 110, 95, 120, 101, 99, 130, 80, 105, 102]"

definition uniform_importances :: "real list list \<Rightarrow> nat list \<Rightarrow> real list" where
  "uniform_importances X y =
     (case X of [] \<Rightarrow> [] | row # _ \<Rightarrow> replicate (length row) (1 / real (length row)))"

definition rate_trades :: "trade_entry list" where
  "rate_trades =
     [trade0\<lparr>market_conditions := [''a'', ''b'', ''c'']\<rparr>,
      trade0\<lparr>market_conditions := [''a'', ''b'']\<rparr>,
      trade0\<lparr>exit_price := 90, market_conditions := [''a'', ''c'', ''d'']\<rparr>]"

definition rank_trades :: "trade_entry list" where
  "rank_trades =
     [trade0\<lparr>market_conditions := [''x'', ''x'', ''y'']\<rparr>,
      trade0\<lparr>exit_price := 90, market_conditions := [''x'', ''y'']\<rparr>,
      trade0\<lparr>market_conditions := [''y'']\<rparr>,
      trade0\<lparr>market_conditions := [''y'']\<rparr>,
      trade0\<lparr>exit_price := 90, market_conditions := [''y'']\<rparr>]"

definition big_trades :: "trade_entry list" where
  "big_trades = map (\<lambda>t. t\<lparr>position_size := 2 ^ 130\<rparr>) ten_trades"

text \<open>
  A classifier for the sample runs. As the input validation of scikit-learn does, it raises
  when a feature does not fit the single precision it converts to (here from \<open>2 ^ 128\<close>
  on); otherwise every feature gets the same importance.
\<close>

definition float32_clf :: "real list list \<Rightarrow> nat list \<Rightarrow> string + real list" where
  "float32_clf X y =
     (if filter (\<lambda>v. 2 ^ 128 \<le> \<bar>v\<bar>) (concat X) \<noteq> []
      then Inl ''Input X contains infinity or a value too large for dtype(float32).''
      else Inr (uniform_importances X y))"





section \<open>Auxiliary lemmas\<close>

lemma round_half_even_error: "\<bar>of_int (round_half_even y) - y\<bar> \<le> 1 / 2"
proof -
  have "of_int \<lfloor>y\<rfloor> \<le> y" "y < of_int \<lfloor>y\<rfloor> + 1"
    by linarith+
  then show ?thesis
    by (auto simp: round_half_even_def Let_def)
qed

lemma round_half_even_nonneg: "0 \<le> y \<Longrightarrow> 0 \<le> round_half_even y"
  by (auto simp: round_half_even_def Let_def)

lemma real_le_pow2: "n \<le> 2 ^ k \<Longrightarrow> real n \<le> 2 ^ k"
proof -
  assume "n \<le> 2 ^ k"
  then have "real n \<le> real (2 ^ k)" by (rule of_nat_mono)
  also have "real (2 ^ k) = 2 ^ k" by simp
  finally show ?thesis .
qed

lemma real_pow2_le: "2 ^ k \<le> n \<Longrightarrow> (2::real) ^ k \<le> real n"
proof -
  assume "2 ^ k \<le> n"
  then have "real (2 ^ k) \<le> real n" by (rule of_nat_mono)
  moreover have "real (2 ^ k) = 2 ^ k" by simp
  ultimately show ?thesis by simp
qed

lemma exponent_bounds:
  assumes "0 < x"
  shows "2 powi exponent x \<le> x \<and> x < 2 powi (exponent x + 1)"
proof (cases "1 \<le> x")
  case True
  define n where "n = nat \<lfloor>x\<rfloor>"
  have fl: "0 < \<lfloor>x\<rfloor>" using True by simp
  then have "0 \<le> \<lfloor>x\<rfloor>" by linarith
  then have rn: "real n = of_int \<lfloor>x\<rfloor>" unfolding n_def by (rule of_nat_nat)
  have n: "0 < n" "real n \<le> x" "x < real n + 1"
  proof -
    show "0 < n" using fl by (simp add: n_def)
    show "real n \<le> x" unfolding rn by (rule of_int_floor_le)
    show "x < real n + 1" unfolding rn by linarith
  qed
  from floorlog_bounds [of n 2] n(1)
  have b: "2 ^ (floorlog 2 n - 1) \<le> n" "n < 2 ^ floorlog 2 n"
    by simp_all
  have pos: "0 < floorlog 2 n"
    using n(1) by (simp add: floorlog_def)
  have e: "exponent x = int (floorlog 2 n - 1)"
    using True pos by (simp add: exponent_def n_def)
  have "2 powi exponent x = (2::real) ^ (floorlog 2 n - 1)"
    by (simp add: e)
  also have "\<dots> \<le> real n"
    using b(1) by (rule real_pow2_le)
  finally have lo: "2 powi exponent x \<le> x"
    using n(2) by simp
  have "exponent x + 1 = int (floorlog 2 n)"
    using pos by (simp add: e)
  then have "2 powi (exponent x + 1) = (2::real) ^ floorlog 2 n"
    by simp
  moreover have "real n + 1 \<le> (2::real) ^ floorlog 2 n"
  proof -
    have "n + 1 \<le> 2 ^ floorlog 2 n" using b(2) by simp
    then have "real (n + 1) \<le> 2 ^ floorlog 2 n" by (rule real_le_pow2)
    then show ?thesis by simp
  qed
  ultimately have "x < 2 powi (exponent x + 1)"
    using n(3) by simp
  with lo show ?thesis by simp
next
  case False
  define y where "y = 1 / x"
  define N where "N = nat \<lceil>y\<rceil>"
  have y: "1 < y" using assms False by (simp add: y_def)
  have cl: "2 \<le> \<lceil>y\<rceil>" using y by linarith
  then have "0 \<le> \<lceil>y\<rceil>" by linarith
  then have rN: "real N = of_int \<lceil>y\<rceil>" unfolding N_def by (rule of_nat_nat)
  have N: "2 \<le> N" "y \<le> real N" "real N - 1 < y"
  proof -
    show "2 \<le> N" unfolding N_def using cl by linarith
    show "y \<le> real N" unfolding rN by (rule le_of_int_ceiling)
    show "real N - 1 < y" unfolding rN by linarith
  qed
  define m where "m = N - 1"
  have m: "0 < m" "N = m + 1" using N(1) by (simp_all add: m_def)
  have "nat (\<lceil>y\<rceil> - 1) = nat \<lceil>y\<rceil> - 1"
    using cl by arith
  then have arg: "nat (\<lceil>1 / x\<rceil> - 1) = m"
    by (simp add: m_def N_def y_def)
  from floorlog_bounds [of m 2] m(1)
  have b: "2 ^ (floorlog 2 m - 1) \<le> m" "m < 2 ^ floorlog 2 m"
    by simp_all
  have pos: "0 < floorlog 2 m"
    using m(1) by (simp add: floorlog_def)
  define j where "j = floorlog 2 m"
  have e: "exponent x = - int j"
    using False by (simp add: exponent_def arg j_def)
  have up: "y \<le> 2 ^ j"
  proof -
    have "N \<le> 2 ^ j" using b(2) m(2) by (simp add: j_def)
    then have "real N \<le> 2 ^ j" by (rule real_le_pow2)
    then show ?thesis using N(2) by linarith
  qed
  have lowr: "2 ^ (j - 1) < y"
  proof -
    have "2 ^ (j - 1) \<le> m" using b(1) by (simp add: j_def)
    then have "(2::real) ^ (j - 1) \<le> real m" by (rule real_pow2_le)
    moreover have "real m = real N - 1" using m(2) by simp
    ultimately show ?thesis using N(3) by linarith
  qed
  have xy: "x = 1 / y" using assms by (simp add: y_def)
  have "(2::real) powi exponent x = 1 / 2 ^ j"
    by (simp add: e power_int_minus inverse_eq_divide)
  also have "\<dots> \<le> 1 / y"
    using up y by (simp add: frac_le)
  finally have lo: "2 powi exponent x \<le> x" by (simp add: xy)
  have "exponent x + 1 = - int (j - 1)"
    using pos by (simp add: e j_def)
  then have "(2::real) powi (exponent x + 1) = 1 / 2 ^ (j - 1)"
    by (simp add: power_int_minus inverse_eq_divide)
  moreover have "1 / y < 1 / 2 ^ (j - 1)"
    using lowr by (simp add: frac_less2)
  ultimately have "x < 2 powi (exponent x + 1)" by (simp add: xy)
  with lo show ?thesis by simp
qed

lemma round_double_error:
  assumes "0 \<le> x"
  shows "\<bar>round_double x - x\<bar> \<le> x / 2 ^ 53"
proof (cases "x = 0")
  case True
  then show ?thesis by (simp add: round_double_def)
next
  case False
  with assms have pos: "0 < x" by simp
  define u :: real where "u = 2 powi (exponent x - 52)"
  have u: "0 < u" by (simp add: u_def)
  have "u = 2 powi exponent x / 2 powi 52"
    unfolding u_def by (rule power_int_diff) simp
  also have "\<dots> \<le> x / 2 powi 52"
    using exponent_bounds [OF pos] by (simp add: divide_right_mono)
  finally have ux: "u \<le> x / 2 ^ 52" by simp
  have rd: "round_double x = of_int (round_half_even (x / u)) * u"
    using pos by (simp add: round_double_def u_def Let_def)
  have "\<bar>of_int (round_half_even (x / u)) - x / u\<bar> \<le> 1 / 2"
    by (rule round_half_even_error)
  then have "\<bar>of_int (round_half_even (x / u)) - x / u\<bar> * u \<le> 1 / 2 * u"
    using u by (simp add: mult_right_mono)
  moreover have "\<bar>of_int (round_half_even (x / u)) - x / u\<bar> * u =
                 \<bar>of_int (round_half_even (x / u)) * u - x\<bar>"
  proof -
    have "\<bar>of_int (round_half_even (x / u)) - x / u\<bar> * u =
          \<bar>(of_int (round_half_even (x / u)) - x / u) * u\<bar>"
      using u by (simp add: abs_mult)
    also have "(of_int (round_half_even (x / u)) - x / u) * u =
               of_int (round_half_even (x / u)) * u - x"
      using u by (simp add: algebra_simps)
    finally show ?thesis .
  qed
  ultimately have "\<bar>round_double x - x\<bar> \<le> u / 2"
    by (simp add: rd)
  also have "\<dots> \<le> x / 2 ^ 53"
    using ux by simp
  finally show ?thesis .
qed

lemma round_double_nonneg: "0 \<le> x \<Longrightarrow> 0 \<le> round_double x"
  by (auto simp: round_double_def Let_def round_half_even_nonneg sgn_if)

lemma printed_rate_error:
  assumes "0 \<le> r" and "r \<le> 1"
  shows "\<bar>round_double (round_double r * 100) - r * 100\<bar> \<le> 1 / 2 ^ 44"
proof -
  define a where "a = round_double r"
  define b where "b = round_double (a * 100)"
  have a0: "0 \<le> a" unfolding a_def using assms(1) by (rule round_double_nonneg)
  have "\<bar>a - r\<bar> \<le> r / 2 ^ 53"
    unfolding a_def using assms(1) by (rule round_double_error)
  also have "\<dots> \<le> 1 / 2 ^ 53"
    using assms(2) by (simp add: divide_right_mono)
  finally have ar: "\<bar>a - r\<bar> \<le> 1 / 2 ^ 53" .
  have "a - r \<le> \<bar>a - r\<bar>" by simp
  moreover have "(1::real) / 2 ^ 53 \<le> 1" by simp
  ultimately have a2: "a \<le> 2" using ar assms(2) by linarith
  have "0 \<le> a * 100" using a0 by simp
  then have "\<bar>b - a * 100\<bar> \<le> a * 100 / 2 ^ 53"
    unfolding b_def by (rule round_double_error)
  also have "\<dots> \<le> 200 / 2 ^ 53"
    using a2 by (simp add: divide_right_mono)
  finally have ba: "\<bar>b - a * 100\<bar> \<le> 200 / 2 ^ 53" .
  have split: "b - r * 100 = (b - a * 100) + 100 * (a - r)"
    by simp
  have "\<bar>(b - a * 100) + 100 * (a - r)\<bar> \<le> \<bar>b - a * 100\<bar> + \<bar>100 * (a - r)\<bar>"
    by (rule abs_triangle_ineq)
  moreover have "\<bar>100 * (a - r)\<bar> = 100 * \<bar>a - r\<bar>"
    by (simp only: abs_mult abs_numeral)
  ultimately have "\<bar>b - r * 100\<bar> \<le> \<bar>b - a * 100\<bar> + 100 * \<bar>a - r\<bar>"
    by (simp only: split)
  also have "\<dots> \<le> 200 / 2 ^ 53 + 100 * (1 / 2 ^ 53)"
    using ba ar by (intro add_mono mult_left_mono) simp_all
  also have "\<dots> \<le> 1 / 2 ^ 44"
    by simp
  finally show ?thesis by (simp add: a_def b_def)
qed

lemma format_1f_nonneg:
  assumes "0 \<le> x"
  shows "\<exists>q. format_1f x = show_nat (q div 10) @ ''.'' @ [digit_char (q mod 10)] \<and>
             \<bar>real q / 10 - x\<bar> \<le> 1 / 20"
proof -
  define q where "q = nat (round_half_even (x * 10))"
  have "0 \<le> round_half_even (x * 10)"
    using assms by (intro round_half_even_nonneg) simp
  then have "real q = of_int (round_half_even (x * 10))"
    by (simp add: q_def)
  moreover have "\<bar>of_int (round_half_even (x * 10)) - x * 10\<bar> \<le> 1 / 2"
    by (rule round_half_even_error)
  ultimately have "\<bar>real q - x * 10\<bar> \<le> 1 / 2" by simp
  then have "\<bar>real q - x * 10\<bar> / 10 \<le> 1 / 2 / 10"
    by (rule divide_right_mono) simp
  moreover have "\<bar>real q / 10 - x\<bar> = \<bar>real q - x * 10\<bar> / 10"
  proof -
    have "real q / 10 - x = (real q - x * 10) / 10" by simp
    then show ?thesis by (simp only: abs_divide)
  qed
  ultimately have "\<bar>real q / 10 - x\<bar> \<le> 1 / 20"
    by simp
  moreover have "format_1f x = show_nat (q div 10) @ ''.'' @ [digit_char (q mod 10)]"
    using assms by (simp add: format_1f_def q_def Let_def)
  ultimately show ?thesis by blast
qed

lemma set_first_seen: "set (first_seen xs) = set xs"
  by (induction xs) auto

lemma distinct_first_seen: "distinct (first_seen xs)"
  by (induction xs) (auto simp: distinct_removeAll)

lemma first_seen_snoc:
  "first_seen (xs @ [c]) = (if c \<in> set xs then first_seen xs else first_seen xs @ [c])"
  by (induction xs) auto

lemma mapM_Inr: "(\<And>x. x \<in> set xs \<Longrightarrow> f x = Inr (g x)) \<Longrightarrow> mapM f xs = Inr (map g xs)"
  by (induction xs) (simp_all add: bind_err_def)

lemma dict_append_new:
  "k \<notin> set ks \<Longrightarrow> dict_append (map (\<lambda>x. (x, f x)) ks) k v = map (\<lambda>x. (x, f x)) ks @ [(k, [v])]"
  by (induction ks) auto

lemma dict_append_old:
  "k \<in> set ks \<Longrightarrow> distinct ks \<Longrightarrow>
   dict_append (map (\<lambda>x. (x, f x)) ks) k v = map (\<lambda>x. (x, if x = k then f x @ [v] else f x)) ks"
  by (induction ks) auto

lemma fold_dict_append:
  "foldl (\<lambda>d e. dict_append d (fst e) (snd e)) [] ev =
   map (\<lambda>k. (k, outcomes ev k)) (first_seen (map fst ev))"
proof (induction ev rule: rev_induct)
  case Nil
  show ?case by simp
next
  case (snoc e ev)
  show ?case
  proof (cases "fst e \<in> set (map fst ev)")
    case True
    have "dict_append (map (\<lambda>k. (k, outcomes ev k)) (first_seen (map fst ev))) (fst e) (snd e) =
          map (\<lambda>k. (k, if k = fst e then outcomes ev k @ [snd e] else outcomes ev k))
            (first_seen (map fst ev))"
      using True by (intro dict_append_old) (simp_all add: set_first_seen distinct_first_seen)
    also have "\<dots> = map (\<lambda>k. (k, outcomes (ev @ [e]) k)) (first_seen (map fst ev))"
      by (simp add: outcomes_def)
    finally show ?thesis using True snoc by (simp add: first_seen_snoc)
  next
    case False
    have new: "fst e \<notin> set (first_seen (map fst ev))"
      using False by (simp add: set_first_seen)
    have "filter (\<lambda>x. fst x = fst e) ev = []"
      using False by (auto simp: filter_empty_conv intro: rev_image_eqI)
    then have last: "outcomes (ev @ [e]) (fst e) = [snd e]"
      by (simp add: outcomes_def)
    have same: "map (\<lambda>k. (k, outcomes ev k)) (first_seen (map fst ev)) =
          map (\<lambda>k. (k, outcomes (ev @ [e]) k)) (first_seen (map fst ev))"
      using False by (auto simp: outcomes_def set_first_seen)
    have "foldl (\<lambda>d e. dict_append d (fst e) (snd e)) [] (ev @ [e]) =
          dict_append (map (\<lambda>k. (k, outcomes ev k)) (first_seen (map fst ev))) (fst e) (snd e)"
      by (simp add: snoc)
    also have "\<dots> = map (\<lambda>k. (k, outcomes ev k)) (first_seen (map fst ev)) @ [(fst e, [snd e])]"
      by (rule dict_append_new [OF new])
    also have "\<dots> = map (\<lambda>k. (k, outcomes (ev @ [e]) k)) (first_seen (map fst ev)) @
                     [(fst e, outcomes (ev @ [e]) (fst e))]"
      by (simp only: same last)
    also have "\<dots> = map (\<lambda>k. (k, outcomes (ev @ [e]) k)) (first_seen (map fst (ev @ [e])))"
      using False by (simp add: first_seen_snoc)
    finally show ?thesis .
  qed
qed

lemma foldl_inner_events:
  "foldl (\<lambda>d' c. dict_append d' c b) d cs =
   foldl (\<lambda>d e. dict_append d (fst e) (snd e)) d (map (\<lambda>c. (c, b)) cs)"
  by (induction cs arbitrary: d) simp_all

lemma condition_performance_events:
  "foldl (\<lambda>d trade. foldl (\<lambda>d' c. dict_append d' c (0 < profit_loss trade)) d (market_conditions trade)) d0 ts =
   foldl (\<lambda>d e. dict_append d (fst e) (snd e)) d0 (events ts)"
  by (induction ts arbitrary: d0) (simp_all add: events_def foldl_inner_events)

lemma map_fst_events: "map fst (events ts) = all_labels ts"
  by (induction ts) (simp_all add: events_def all_labels_def comp_def)

lemma condition_performance_eq:
  "condition_performance ts = map (\<lambda>k. (k, outcomes (events ts) k)) (first_seen (all_labels ts))"
  unfolding condition_performance_def condition_performance_events fold_dict_append map_fst_events ..

lemma length_outcomes: "length (outcomes (events ts) k) = count_list (all_labels ts) k"
  by (induction ts)
     (auto simp: outcomes_def events_def all_labels_def count_list_eq_length_filter filter_map comp_def
           intro!: arg_cong[where f=length] filter_cong)

lemma sum_bools_outcomes:
  "sum_bools (outcomes (events ts) k) = count_list (all_labels (filter (\<lambda>t. 0 < profit_loss t) ts)) k"
  by (induction ts)
     (auto simp: sum_bools_def outcomes_def events_def all_labels_def count_list_eq_length_filter
           filter_map comp_def intro!: arg_cong[where f=length] filter_cong)

lemma insort_key_map: "insort_key f (g x) (map g ys) = map g (insort_key (\<lambda>y. f (g y)) x ys)"
  by (induction ys) simp_all

lemma sort_key_map: "sort_key f (map g xs) = map g (sort_key (\<lambda>y. f (g y)) xs)"
  by (induction xs) (simp_all add: insort_key_map)

lemma sorted_reverse_map: "sorted_reverse f (map g xs) = map g (sorted_reverse (\<lambda>y. f (g y)) xs)"
  by (simp add: sorted_reverse_def rev_map sort_key_map)

lemma zip_map_same: "zip (map r xs) xs = map (\<lambda>x. (r x, x)) xs"
  by (induction xs) simp_all

lemma mset_sorted_reverse: "mset (sorted_reverse f xs) = mset xs"
  by (simp add: sorted_reverse_def)

lemma sorted_reverse_descending: "sorted_wrt (\<lambda>a b. f b \<le> f a) (sorted_reverse f xs)"
proof -
  have "sorted (map f (sort_key f (rev xs)))"
    by (rule sorted_sort_key)
  then have "sorted_wrt (\<lambda>a b. f a \<le> f b) (sort_key f (rev xs))"
    by (simp only: sorted_wrt_map)
  then show ?thesis
    by (simp only: sorted_reverse_def sorted_wrt_rev)
qed

lemma sorted_reverse_stable:
  "filter (\<lambda>y. f y = k) (sorted_reverse f xs) = filter (\<lambda>y. f y = k) xs"
  by (simp add: sorted_reverse_def rev_filter[symmetric] sort_key_stable)

lemma sum_list_pos_real: "xs \<noteq> [] \<Longrightarrow> (\<And>x. x \<in> set xs \<Longrightarrow> 0 < x) \<Longrightarrow> 0 < sum_list (xs :: real list)"
proof (induction xs)
  case Nil
  then show ?case by simp
next
  case (Cons a xs)
  show ?case
  proof (cases "xs = []")
    case True
    then show ?thesis using Cons.prems by simp
  next
    case False
    have "0 < a" using Cons.prems by simp
    moreover have "0 < sum_list xs" using False Cons by simp
    ultimately show ?thesis by simp
  qed
qed

lemma losses_sum_pos:
  "filter (\<lambda>t. profit_loss t < 0) ts \<noteq> [] \<Longrightarrow>
   0 < sum_list (map (\<lambda>t. \<bar>profit_loss t\<bar>) (filter (\<lambda>t. profit_loss t < 0) ts))"
  by (rule sum_list_pos_real) auto

lemma rate_key_item:
  assumes "k \<in> set (all_labels ts)"
  shows "rate_key (k, outcomes (events ts) k) = Inr (label_win_rate ts k)"
proof -
  have "count_list (all_labels ts) k \<noteq> 0"
    using assms by (simp add: count_list_0_iff)
  then show ?thesis
    by (simp add: rate_key_def truediv_def length_outcomes sum_bools_outcomes label_win_rate_def)
qed

lemma insight_item:
  assumes "k \<in> set (all_labels ts)"
  shows "insight (k, outcomes (events ts) k) = Inr (insight_text ts k)"
proof -
  have "count_list (all_labels ts) k \<noteq> 0"
    using assms by (simp add: count_list_0_iff)
  then show ?thesis
    by (simp add: insight_def bind_err_def truediv_def length_outcomes sum_bools_outcomes
          label_win_rate_def insight_text_def)
qed

lemma mapM_rate_key:
  "mapM rate_key (condition_performance ts) =
   Inr (map (\<lambda>x. label_win_rate ts (fst x)) (condition_performance ts))"
  by (rule mapM_Inr) (auto simp: condition_performance_eq set_first_seen rate_key_item)

lemma set_ranked_labels: "set (ranked_labels ts) = set (all_labels ts)"
  by (simp add: ranked_labels_def sorted_reverse_def set_first_seen)

lemma sorted_reverse_decorated:
  "map snd (sorted_reverse fst (zip (map r xs) xs)) = sorted_reverse r xs"
proof -
  have "map snd (sorted_reverse fst (zip (map r xs) xs)) =
        map snd (sorted_reverse fst (map (\<lambda>x. (r x, x)) xs))"
    by (simp only: zip_map_same)
  also have "\<dots> = map snd (map (\<lambda>x. (r x, x)) (sorted_reverse (\<lambda>y. fst (r y, y)) xs))"
    by (simp only: sorted_reverse_map)
  also have "\<dots> = sorted_reverse r xs"
    by (simp add: comp_def)
  finally show ?thesis .
qed

lemma ranked_items:
  "map snd (sorted_reverse fst
      (zip (map (\<lambda>x. label_win_rate ts (fst x)) (condition_performance ts)) (condition_performance ts))) =
   map (\<lambda>k. (k, outcomes (events ts) k)) (ranked_labels ts)"
proof -
  have "sorted_reverse (\<lambda>x. label_win_rate ts (fst x)) (condition_performance ts) =
        sorted_reverse (\<lambda>x. label_win_rate ts (fst x))
          (map (\<lambda>k. (k, outcomes (events ts) k)) (first_seen (all_labels ts)))"
    by (simp only: condition_performance_eq)
  also have "\<dots> = map (\<lambda>k. (k, outcomes (events ts) k))
                    (sorted_reverse (\<lambda>k. label_win_rate ts (fst (k, outcomes (events ts) k)))
                       (first_seen (all_labels ts)))"
    by (rule sorted_reverse_map)
  also have "\<dots> = map (\<lambda>k. (k, outcomes (events ts) k)) (ranked_labels ts)"
    by (simp add: ranked_labels_def)
  finally show ?thesis
    by (simp only: sorted_reverse_decorated)
qed

lemma best_items:
  "take 3 (map snd (sorted_reverse fst
      (zip (map (\<lambda>x. label_win_rate ts (fst x)) (condition_performance ts)) (condition_performance ts)))) =
   map (\<lambda>k. (k, outcomes (events ts) k)) (take 3 (ranked_labels ts))"
  by (simp only: ranked_items take_map)

lemma mapM_insight:
  "mapM insight (map (\<lambda>k. (k, outcomes (events ts) k)) (take 3 (ranked_labels ts))) =
   Inr (map (insight_text ts) (take 3 (ranked_labels ts)))"
proof -
  have "mapM insight (map (\<lambda>k. (k, outcomes (events ts) k)) (take 3 (ranked_labels ts))) =
        Inr (map (\<lambda>x. insight_text ts (fst x))
               (map (\<lambda>k. (k, outcomes (events ts) k)) (take 3 (ranked_labels ts))))"
  proof (rule mapM_Inr)
    fix x assume "x \<in> set (map (\<lambda>k. (k, outcomes (events ts) k)) (take 3 (ranked_labels ts)))"
    then obtain k where k: "k \<in> set (take 3 (ranked_labels ts))" and x: "x = (k, outcomes (events ts) k)"
      by auto
    from k have "k \<in> set (ranked_labels ts)"
      by (rule in_set_takeD)
    then have "k \<in> set (all_labels ts)"
      by (simp add: set_ranked_labels)
    then show "insight x = Inr (insight_text ts (fst x))"
      by (simp add: x insight_item)
  qed
  then show ?thesis by (simp add: comp_def)
qed

lemma map_fst_best:
  "map fst (map (\<lambda>k. (k, outcomes (events ts) k)) ls) = ls"
  by (simp add: comp_def)

lemma analyze_performance_nonempty:
  assumes "ts \<noteq> []"
  shows "analyze_performance ts =
     Inr \<lparr>win_rate = real (length (filter (\<lambda>t. 0 < profit_loss t) ts)) / real (length ts),
          profit_factor =
            (if filter (\<lambda>t. profit_loss t < 0) ts = [] then Inf
             else Fin (sum_list (map profit_loss (filter (\<lambda>t. 0 < profit_loss t) ts)) /
                       sum_list (map (\<lambda>t. \<bar>profit_loss t\<bar>) (filter (\<lambda>t. profit_loss t < 0) ts)))),
          average_win =
            (if filter (\<lambda>t. 0 < profit_loss t) ts = [] then 0
             else sum_list (map profit_loss (filter (\<lambda>t. 0 < profit_loss t) ts)) /
                  real (length (filter (\<lambda>t. 0 < profit_loss t) ts))),
          average_loss =
            (if filter (\<lambda>t. profit_loss t < 0) ts = [] then 0
             else sum_list (map (\<lambda>t. \<bar>profit_loss t\<bar>) (filter (\<lambda>t. profit_loss t < 0) ts)) /
                  real (length (filter (\<lambda>t. profit_loss t < 0) ts))),
          best_conditions = take 3 (ranked_labels ts),
          pattern_insights = map (insight_text ts) (take 3 (ranked_labels ts))\<rparr>"
proof (cases "filter (\<lambda>t. profit_loss t < 0) ts = []")
  case True
  then show ?thesis
    using assms
    by (simp add: analyze_performance_def truediv_def bind_err_def Let_def mapM_rate_key
          best_items mapM_insight map_fst_best del: map_map)
next
  case False
  from losses_sum_pos [OF False]
  have pos: "0 < sum_list (map (\<lambda>t. \<bar>profit_loss t\<bar>) (filter (\<lambda>t. profit_loss t < 0) ts))" .
  show ?thesis
    using assms False pos
    by (simp add: analyze_performance_def truediv_def bind_err_def Let_def mapM_rate_key
          best_items mapM_insight map_fst_best del: map_map)
qed

lemma distinct_ranked_labels: "distinct (ranked_labels ts)"
  by (simp add: ranked_labels_def sorted_reverse_def distinct_first_seen)

lemma ranked_labels_descending:
  "sorted_wrt (\<lambda>a b. label_win_rate ts b \<le> label_win_rate ts a) (ranked_labels ts)"
  unfolding ranked_labels_def by (rule sorted_reverse_descending)

lemma ranked_labels_stable:
  "filter (\<lambda>l. label_win_rate ts l = k) (ranked_labels ts) =
   filter (\<lambda>l. label_win_rate ts l = k) (first_seen (all_labels ts))"
  unfolding ranked_labels_def by (rule sorted_reverse_stable)

lemma length_ranked_labels: "length (ranked_labels ts) = card (set (all_labels ts))"
proof -
  have "length (ranked_labels ts) = card (set (ranked_labels ts))"
    by (simp add: distinct_card distinct_ranked_labels)
  then show ?thesis by (simp add: set_ranked_labels)
qed

lemma take_dominates:
  assumes "sorted_wrt (\<lambda>a b. f b \<le> f a) xs" and "a \<in> set (take n xs)"
    and "b \<in> set xs" and "b \<notin> set (take n xs)"
  shows "f b \<le> f a"
proof -
  have "sorted_wrt (\<lambda>a b. f b \<le> f a) (take n xs @ drop n xs)"
    using assms(1) by simp
  then have all: "\<forall>x\<in>set (take n xs). \<forall>y\<in>set (drop n xs). f y \<le> f x"
    by (simp only: sorted_wrt_append) blast
  have "set xs = set (take n xs) \<union> set (drop n xs)"
    by (metis append_take_drop_id set_append)
  then have "b \<in> set (drop n xs)"
    using assms(3,4) by blast
  then show ?thesis
    using all assms(2) by blast
qed

lemma tie_rates:
  "label_win_rate tie_trades ''a'' = 0" "label_win_rate tie_trades ''b'' = 1 / 2"
  "label_win_rate tie_trades ''c'' = 1" "label_win_rate tie_trades ''d'' = 1"
  "label_win_rate tie_trades ''e'' = 1"
  by (simp_all add: label_win_rate_def all_labels_def tie_trades_def trade0_def profit_loss_def)

lemma tie_ranked: "ranked_labels tie_trades = [''c'', ''d'', ''e'', ''b'', ''a'']"
proof -
  have "first_seen (all_labels tie_trades) = [''a'', ''b'', ''c'', ''d'', ''e'']"
    by (simp add: all_labels_def tie_trades_def trade0_def)
  then show ?thesis
    by (simp add: ranked_labels_def sorted_reverse_def tie_rates)
qed

lemma count_list_distinct: "distinct xs \<Longrightarrow> count_list xs l = (if l \<in> set xs then 1 else 0)"
  by (induction xs) auto

lemma count_all_labels_distinct:
  "(\<And>t. t \<in> set ts \<Longrightarrow> distinct (market_conditions t)) \<Longrightarrow>
   count_list (all_labels ts) l = length (filter (\<lambda>t. l \<in> set (market_conditions t)) ts)"
  by (induction ts) (simp_all add: all_labels_def count_list_distinct)

lemma label_win_rate_distinct:
  assumes "\<And>t. t \<in> set ts \<Longrightarrow> distinct (market_conditions t)"
  shows "label_win_rate ts l = spec_label_win_rate ts l"
proof -
  have "count_list (all_labels (filter (\<lambda>t. 0 < profit_loss t) ts)) l =
        length (filter (\<lambda>t. l \<in> set (market_conditions t)) (filter (\<lambda>t. 0 < profit_loss t) ts))"
    by (rule count_all_labels_distinct) (simp add: assms)
  moreover have "count_list (all_labels ts) l = length (filter (\<lambda>t. l \<in> set (market_conditions t)) ts)"
    by (rule count_all_labels_distinct) (rule assms)
  ultimately show ?thesis
    by (simp add: label_win_rate_def spec_label_win_rate_def)
qed

lemma distinct_index_unique:
  assumes "distinct xs" and "c \<in> set xs"
  shows "\<exists>!i. i < length xs \<and> xs ! i = c"
proof -
  from assms(2) obtain i where i: "i < length xs" "xs ! i = c"
    by (auto simp: in_set_conv_nth)
  show ?thesis
  proof (rule ex1I [of _ i])
    show "i < length xs \<and> xs ! i = c" using i by simp
  next
    fix j assume j: "j < length xs \<and> xs ! j = c"
    then have eq: "xs ! j = xs ! i" and jl: "j < length xs" using i by simp_all
    from nth_eq_iff_index_eq [OF assms(1) jl i(1)] eq show "j = i" by simp
  qed
qed

lemma union_conditions_all_labels: "union_conditions set_iter ts = set_iter (all_labels ts)"
  by (simp add: union_conditions_def all_labels_def)

lemma ten_labels: "all_labels ten_trades = [''range'', ''trend'', ''news'', ''range'', ''trend'', ''news'',
    ''trend'', ''news'', ''range'', ''trend'', ''news'', ''range'', ''trend'', ''news'', ''trend'', ''news'']"
  by (simp add: all_labels_def ten_trades_def)

lemma ten_order: "first_seen (all_labels ten_trades) = [''range'', ''trend'', ''news'']"
  by (simp add: ten_labels)

lemma digit_val_digit_char: "d < 10 \<Longrightarrow> digit_val (digit_char d) = d"
proof -
  assume "d < 10"
  then have "d = 0 \<or> d = 1 \<or> d = 2 \<or> d = 3 \<or> d = 4 \<or> d = 5 \<or> d = 6 \<or> d = 7 \<or> d = 8 \<or> d = 9"
    by arith
  then show ?thesis
    by (elim disjE) (simp_all add: digit_char_def digit_val_def)
qed

lemma read_nat_snoc: "read_nat (s @ [c]) = 10 * read_nat s + digit_val c"
  by (simp add: read_nat_def)

lemma read_nat_show_nat: "read_nat (show_nat n) = n"
proof (induction n rule: show_nat.induct)
  case (1 n)
  show ?case
  proof (cases "n < 10")
    case True
    then show ?thesis
      by (simp add: show_nat.simps [of n] read_nat_def digit_val_digit_char)
  next
    case False
    then have "read_nat (show_nat n) = 10 * read_nat (show_nat (n div 10)) + digit_val (digit_char (n mod 10))"
      by (simp add: show_nat.simps [of n] read_nat_snoc)
    also have "\<dots> = 10 * (n div 10) + n mod 10"
      using False by (simp add: "1.IH" digit_val_digit_char)
    finally show ?thesis by simp
  qed
qed

lemma count_wins_le: "count_list (all_labels (filter P ts)) l \<le> count_list (all_labels ts) l"
  by (induction ts) (simp_all add: all_labels_def)

lemma label_win_rate_bounds: "0 \<le> label_win_rate ts l \<and> label_win_rate ts l \<le> 1"
proof -
  have "real (count_list (all_labels (filter (\<lambda>t. 0 < profit_loss t) ts)) l) \<le>
        real (count_list (all_labels ts) l)"
    using count_wins_le [of "\<lambda>t. 0 < profit_loss t" ts l] by simp
  then show ?thesis
    by (auto simp: label_win_rate_def divide_le_eq_1)
qed

lemma insight_text_shape:
  "\<exists>q. insight_text ts l =
          ''Best win rate in '' @ l @ '': '' @ show_nat (q div 10) @ ''.'' @
          [digit_char (q mod 10)] @ ''%'' \<and>
        read_nat (show_nat (q div 10)) = q div 10 \<and>
        digit_val (digit_char (q mod 10)) = q mod 10 \<and>
        \<bar>real q / 10 - label_win_rate ts l * 100\<bar> \<le> 1 / 20 + 1 / 2 ^ 44"
proof -
  define v where "v = round_double (round_double (label_win_rate ts l) * 100)"
  have r: "0 \<le> label_win_rate ts l" "label_win_rate ts l \<le> 1"
    using label_win_rate_bounds [of ts l] by simp_all
  have "0 \<le> round_double (label_win_rate ts l) * 100"
    using round_double_nonneg [OF r(1)] by simp
  then have v0: "0 \<le> v"
    unfolding v_def by (rule round_double_nonneg)
  have verr: "\<bar>v - label_win_rate ts l * 100\<bar> \<le> 1 / 2 ^ 44"
    unfolding v_def by (rule printed_rate_error [OF r])
  from format_1f_nonneg [OF v0] obtain q where
    q: "format_1f v = show_nat (q div 10) @ ''.'' @ [digit_char (q mod 10)]"
    and qerr: "\<bar>real q / 10 - v\<bar> \<le> 1 / 20"
    by blast
  have split: "real q / 10 - label_win_rate ts l * 100 =
        (real q / 10 - v) + (v - label_win_rate ts l * 100)"
    by simp
  have "\<bar>(real q / 10 - v) + (v - label_win_rate ts l * 100)\<bar> \<le>
        \<bar>real q / 10 - v\<bar> + \<bar>v - label_win_rate ts l * 100\<bar>"
    by (rule abs_triangle_ineq)
  then have "\<bar>real q / 10 - label_win_rate ts l * 100\<bar> \<le>
        \<bar>real q / 10 - v\<bar> + \<bar>v - label_win_rate ts l * 100\<bar>"
    by (simp only: split)
  then have err: "\<bar>real q / 10 - label_win_rate ts l * 100\<bar> \<le> 1 / 20 + 1 / 2 ^ 44"
    using qerr verr by linarith
  have shape: "insight_text ts l =
          ''Best win rate in '' @ l @ '': '' @ show_nat (q div 10) @ ''.'' @
          [digit_char (q mod 10)] @ ''%''"
    by (simp add: insight_text_def v_def [symmetric] q)
  have d: "digit_val (digit_char (q mod 10)) = q mod 10"
    by (rule digit_val_digit_char) simp
  show ?thesis
    apply (rule exI [of _ q])
    apply (intro conjI)
       apply (rule shape)
      apply (rule read_nat_show_nat)
     apply (rule d)
    apply (rule err)
    done
qed



lemmas float_eval = round_double_def exponent_def compute_floorlog round_half_even_def
  format_1f_def show_nat.simps digit_char_def

lemma printed_23_80: "format_1f (round_double (round_double (23 / 80) * 100)) = ''28.7''"
  by (simp add: float_eval)

lemma rate_rates:
  "label_win_rate rate_trades ''a'' = 2 / 3" "label_win_rate rate_trades ''b'' = 1"
  "label_win_rate rate_trades ''c'' = 1 / 2" "label_win_rate rate_trades ''d'' = 0"
  by (simp_all add: label_win_rate_def all_labels_def rate_trades_def trade0_def profit_loss_def)

lemma rate_ranked: "ranked_labels rate_trades = [''b'', ''a'', ''c'', ''d'']"
proof -
  have "first_seen (all_labels rate_trades) = [''a'', ''b'', ''c'', ''d'']"
    by (simp add: all_labels_def rate_trades_def trade0_def)
  then show ?thesis
    by (simp add: ranked_labels_def sorted_reverse_def rate_rates)
qed

lemma printed_rates:
  "format_1f (round_double (round_double 1 * 100)) = ''100.0''"
  "format_1f (round_double (round_double (2 / 3) * 100)) = ''66.7''"
  "format_1f (round_double (round_double (1 / 2) * 100)) = ''50.0''"
  by (simp_all add: float_eval)

lemma ten_features:
  "features first_seen ten_trades =
     [[1, 1, 1, 0, 0], [1, 1, 0, 1, 1], [1, 1, 1, 0, 0], [1, 1, 0, 1, 1], [1, 1, 0, 1, 1],
      [1, 1, 1, 0, 0], [1, 1, 0, 1, 1], [1, 1, 1, 0, 0], [1, 1, 0, 1, 1], [1, 1, 0, 1, 1]]"
proof -
  have row: "feature_row first_seen ten_trades t =
        [if trade_type t = ''long'' then 1 else 0, position_size t] @
        map (\<lambda>c. if c \<in> set (market_conditions t) then 1 else 0) [''range'', ''trend'', ''news'']" for t
    by (simp add: feature_row_def union_conditions_all_labels ten_order Let_def)
  have "features first_seen ten_trades = map (feature_row first_seen ten_trades) ten_trades"
    by (simp add: features_def)
  also have "\<dots> = map (\<lambda>t. [if trade_type t = ''long'' then 1 else 0, position_size t] @
        map (\<lambda>c. if c \<in> set (market_conditions t) then 1 else 0) [''range'', ''trend'', ''news''])
        ten_trades"
    by (rule arg_cong [where f = "\<lambda>f. map f ten_trades"]) (rule ext, rule row)
  finally show ?thesis
    by (simp add: ten_trades_def trade0_def)
qed

lemma ten_fit: "float32_clf (features first_seen ten_trades) (labels ten_trades) =
    Inr [1 / 5, 1 / 5, 1 / 5, 1 / 5, 1 / 5]"
  by (simp add: ten_features float32_clf_def uniform_importances_def)

lemma big_labels: "all_labels big_trades = all_labels ten_trades"
  by (simp add: all_labels_def big_trades_def comp_def)

lemma big_fit: "float32_clf (features first_seen big_trades) (labels big_trades) =
    Inl ''Input X contains infinity or a value too large for dtype(float32).''"
proof -
  have row: "feature_row first_seen big_trades t =
        [if trade_type t = ''long'' then 1 else 0, position_size t] @
        map (\<lambda>c. if c \<in> set (market_conditions t) then 1 else 0) [''range'', ''trend'', ''news'']" for t
    by (simp add: feature_row_def union_conditions_all_labels big_labels ten_order Let_def)
  have "features first_seen big_trades = map (feature_row first_seen big_trades) big_trades"
    by (simp add: features_def)
  also have "\<dots> = map (\<lambda>t. [if trade_type t = ''long'' then 1 else 0, position_size t] @
        map (\<lambda>c. if c \<in> set (market_conditions t) then 1 else 0) [''range'', ''trend'', ''news''])
        big_trades"
    by (rule arg_cong [where f = "\<lambda>f. map f big_trades"]) (rule ext, rule row)
  finally show ?thesis
    by (simp add: big_trades_def ten_trades_def trade0_def float32_clf_def)
qed




section \<open>Properties of the analysis\<close>

text \<open>
  C1. On a non-empty list of trades the analysis returns a report whose win rate is the
  number of trades with a positive profit over the number of all trades; it lies between 0
  and 1, and the trades with zero or negative profit are counted in the denominator only.
\<close>

theorem win_rate_ratio:
  assumes "ts \<noteq> []"
  shows "\<exists>r. analyze_performance ts = Inr r \<and>
           win_rate r = real (length (filter (\<lambda>t. 0 < profit_loss t) ts)) / real (length ts) \<and>
           0 \<le> win_rate r \<and> win_rate r \<le> 1 \<and>
           length ts = length (filter (\<lambda>t. 0 < profit_loss t) ts) +
                       length (filter (\<lambda>t. profit_loss t = 0) ts) +
                       length (filter (\<lambda>t. profit_loss t < 0) ts)"
proof -
  have le: "length (filter (\<lambda>t. 0 < profit_loss t) ts) \<le> length ts"
    by (rule length_filter_le)
  have pos: "0 < length ts"
    using assms by simp
  have bound: "real (length (filter (\<lambda>t. 0 < profit_loss t) ts)) / real (length ts) \<le> 1"
    using le pos by simp
  have split: "length xs = length (filter (\<lambda>t. 0 < profit_loss t) xs) +
                       length (filter (\<lambda>t. profit_loss t = 0) xs) +
                       length (filter (\<lambda>t. profit_loss t < 0) xs)" for xs
    by (induction xs) auto
  show ?thesis
    using bound split [of ts] by (simp add: analyze_performance_nonempty [OF assms])
qed

theorem win_rate_ratio_witness:
  "mixed_trades \<noteq> [] \<and>
   (\<exists>r. analyze_performance mixed_trades = Inr r \<and> win_rate r = 1 / 3 \<and>
        length (filter (\<lambda>t. profit_loss t = 0) mixed_trades) = 1 \<and>
        length (filter (\<lambda>t. profit_loss t < 0) mixed_trades) = 1)"
  using win_rate_ratio [of mixed_trades]
  by (auto simp: mixed_trades_def trade0_def profit_loss_def)

text \<open>
  C2. On a non-empty list of trades the profit factor is the sum of the profits over the
  sum of the absolute losses when some trade has a negative profit (that sum is then
  positive, so the division does not fail), and the infinity value when none has, also
  when no trade has a positive profit either; when every trade has a positive profit the
  profit factor is the infinity value and the average loss is 0.
\<close>

theorem profit_factor_value:
  assumes "ts \<noteq> []"
  shows "\<exists>r. analyze_performance ts = Inr r \<and>
           (filter (\<lambda>t. profit_loss t < 0) ts \<noteq> [] \<longrightarrow>
              profit_factor r =
                Fin (sum_list (map profit_loss (filter (\<lambda>t. 0 < profit_loss t) ts)) /
                     sum_list (map (\<lambda>t. \<bar>profit_loss t\<bar>) (filter (\<lambda>t. profit_loss t < 0) ts))) \<and>
              0 < sum_list (map (\<lambda>t. \<bar>profit_loss t\<bar>) (filter (\<lambda>t. profit_loss t < 0) ts))) \<and>
           (filter (\<lambda>t. profit_loss t < 0) ts = [] \<longrightarrow> profit_factor r = Inf) \<and>
           ((\<forall>t\<in>set ts. 0 < profit_loss t) \<longrightarrow> profit_factor r = Inf \<and> average_loss r = 0)"
proof -
  have none: "filter (\<lambda>t. profit_loss t < 0) ts = []" if "\<forall>t\<in>set ts. 0 < profit_loss t"
    using that by (auto simp: filter_empty_conv)
  show ?thesis
    using none losses_sum_pos [of ts]
    by (simp add: analyze_performance_nonempty [OF assms])
qed

theorem profit_factor_value_witness:
  "mixed_trades \<noteq> [] \<and> flat_trades \<noteq> [] \<and> all_win_trades \<noteq> [] \<and>
   filter (\<lambda>t. profit_loss t < 0) mixed_trades \<noteq> [] \<and>
   filter (\<lambda>t. profit_loss t < 0) flat_trades = [] \<and>
   filter (\<lambda>t. 0 < profit_loss t) flat_trades = [] \<and>
   map profit_loss all_win_trades = [10, 10] \<and>
   (\<exists>r. analyze_performance mixed_trades = Inr r \<and> profit_factor r = Fin 1) \<and>
   (\<exists>r. analyze_performance flat_trades = Inr r \<and> profit_factor r = Inf) \<and>
   (\<exists>r. analyze_performance all_win_trades = Inr r \<and> profit_factor r = Inf \<and> average_loss r = 0)"
proof -
  have m: "mixed_trades \<noteq> []" and f: "flat_trades \<noteq> []" and w: "all_win_trades \<noteq> []"
    by (simp_all add: mixed_trades_def flat_trades_def all_win_trades_def)
  have lm: "filter (\<lambda>t. profit_loss t < 0) mixed_trades \<noteq> []"
    by (simp add: mixed_trades_def trade0_def profit_loss_def)
  have sm: "sum_list (map profit_loss (filter (\<lambda>t. 0 < profit_loss t) mixed_trades)) /
            sum_list (map (\<lambda>t. \<bar>profit_loss t\<bar>) (filter (\<lambda>t. profit_loss t < 0) mixed_trades)) = 1"
    by (simp add: mixed_trades_def trade0_def profit_loss_def)
  have lf: "filter (\<lambda>t. profit_loss t < 0) flat_trades = []"
    and wf: "filter (\<lambda>t. 0 < profit_loss t) flat_trades = []"
    by (simp_all add: flat_trades_def trade0_def profit_loss_def)
  have pw: "map profit_loss all_win_trades = [10, 10]"
    by (simp add: all_win_trades_def trade0_def profit_loss_def)
  have aw: "\<forall>t\<in>set all_win_trades. 0 < profit_loss t"
    by (simp add: all_win_trades_def trade0_def profit_loss_def)
  from profit_factor_value [OF m] lm sm
  have 1: "\<exists>r. analyze_performance mixed_trades = Inr r \<and> profit_factor r = Fin 1"
    by auto
  from profit_factor_value [OF f] lf
  have 2: "\<exists>r. analyze_performance flat_trades = Inr r \<and> profit_factor r = Inf"
    by auto
  from profit_factor_value [OF w] aw
  have 3: "\<exists>r. analyze_performance all_win_trades = Inr r \<and> profit_factor r = Inf \<and> average_loss r = 0"
    by auto
  show ?thesis
    using m f w lm lf wf pw 1 2 3 by blast
qed

text \<open>
  C3. On the three trades of the specification's example (a long 100 to 110 of size 1 in
  ``trend'', a short 50 to 40 of size 2 in ``trend'', a long 30 to 20 of size 1 in ``range''),
  whatever their other fields, the profits and losses are 10, 20 and -10 and the analysis
  returns win rate 2/3, average win 15, average loss 10, profit factor 3 and the best
  conditions ``trend'', ``range'' in that order.
\<close>

theorem analyze_performance_example:
  "map profit_loss
     [b1\<lparr>trade_type := ''long'', entry_price := 100, exit_price := 110, position_size := 1,
         market_conditions := [''trend'']\<rparr>,
      b2\<lparr>trade_type := ''short'', entry_price := 50, exit_price := 40, position_size := 2,
         market_conditions := [''trend'']\<rparr>,
      b3\<lparr>trade_type := ''long'', entry_price := 30, exit_price := 20, position_size := 1,
         market_conditions := [''range'']\<rparr>] = [10, 20, - 10] \<and>
   analyze_performance
     [b1\<lparr>trade_type := ''long'', entry_price := 100, exit_price := 110, position_size := 1,
         market_conditions := [''trend'']\<rparr>,
      b2\<lparr>trade_type := ''short'', entry_price := 50, exit_price := 40, position_size := 2,
         market_conditions := [''trend'']\<rparr>,
      b3\<lparr>trade_type := ''long'', entry_price := 30, exit_price := 20, position_size := 1,
         market_conditions := [''range'']\<rparr>] =
   Inr \<lparr>win_rate = 2 / 3, profit_factor = Fin 3, average_win = 15, average_loss = 10,
        best_conditions = [''trend'', ''range''],
        pattern_insights = [''Best win rate in trend: 100.0%'', ''Best win rate in range: 0.0%'']\<rparr>"
  by (simp add: profit_loss_def condition_performance_def analyze_performance_def
        bind_err_def truediv_def rate_key_def insight_def sum_bools_def sorted_reverse_def
        Let_def)
     (simp add: float_eval)

text \<open>
  C4. On a non-empty list of trades the best conditions are the first three (or all, when
  there are fewer) of the distinct labels sorted by descending win rate, labels of equal
  rate staying in the order in which they were first met; their number is the minimum of 3
  and the number of distinct labels, and no label left out has a higher rate than one
  taken. The rate is the one the code computes, occurrences of the label in winning trades
  over all its occurrences; when no trade lists a label twice it is the share of winning
  trades among the trades that carry the label. There is one insight per best condition:
  ``Best win rate in'', the label, a colon, the decimal numeral of a number of tenths
  \<open>q\<close> with a point before its last digit, and a percent sign, where \<open>q / 10\<close> is the
  binary64 value of the rate times 100 rounded to one decimal, within 0.05 (and the
  rounding of the arithmetic) of the exact percentage.
\<close>

theorem best_conditions_ranking:
  assumes "ts \<noteq> []"
  shows "\<exists>r. analyze_performance ts = Inr r \<and>
           best_conditions r = take 3 (ranked_labels ts) \<and>
           length (best_conditions r) = min 3 (card (set (all_labels ts))) \<and>
           distinct (ranked_labels ts) \<and>
           set (ranked_labels ts) = set (all_labels ts) \<and>
           sorted_wrt (\<lambda>a b. label_win_rate ts b \<le> label_win_rate ts a) (ranked_labels ts) \<and>
           (\<forall>k. filter (\<lambda>l. label_win_rate ts l = k) (ranked_labels ts) =
                filter (\<lambda>l. label_win_rate ts l = k) (first_seen (all_labels ts))) \<and>
           (\<forall>a\<in>set (best_conditions r). \<forall>b\<in>set (all_labels ts) - set (best_conditions r).
                label_win_rate ts b \<le> label_win_rate ts a) \<and>
           pattern_insights r =
             map (\<lambda>l. ''Best win rate in '' @ l @ '': '' @
                      format_1f (round_double (round_double (label_win_rate ts l) * 100)) @ ''%'')
               (best_conditions r) \<and>
           (\<forall>l. \<exists>q. ''Best win rate in '' @ l @ '': '' @
                      format_1f (round_double (round_double (label_win_rate ts l) * 100)) @ ''%'' =
                    ''Best win rate in '' @ l @ '': '' @ show_nat (q div 10) @ ''.'' @
                      [digit_char (q mod 10)] @ ''%'' \<and>
                    read_nat (show_nat (q div 10)) = q div 10 \<and>
                    digit_val (digit_char (q mod 10)) = q mod 10 \<and>
                    \<bar>real q / 10 - label_win_rate ts l * 100\<bar> \<le> 1 / 20 + 1 / 2 ^ 44) \<and>
           (\<forall>l. label_win_rate ts l =
                  real (count_list (all_labels (filter (\<lambda>t. 0 < profit_loss t) ts)) l) /
                  real (count_list (all_labels ts) l)) \<and>
           ((\<forall>t\<in>set ts. distinct (market_conditions t)) \<longrightarrow>
              (\<forall>l. label_win_rate ts l = spec_label_win_rate ts l))"
proof -
  let ?r = "\<lparr>win_rate = real (length (filter (\<lambda>t. 0 < profit_loss t) ts)) / real (length ts),
          profit_factor =
            (if filter (\<lambda>t. profit_loss t < 0) ts = [] then Inf
             else Fin (sum_list (map profit_loss (filter (\<lambda>t. 0 < profit_loss t) ts)) /
                       sum_list (map (\<lambda>t. \<bar>profit_loss t\<bar>) (filter (\<lambda>t. profit_loss t < 0) ts)))),
          average_win =
            (if filter (\<lambda>t. 0 < profit_loss t) ts = [] then 0
             else sum_list (map profit_loss (filter (\<lambda>t. 0 < profit_loss t) ts)) /
                  real (length (filter (\<lambda>t. 0 < profit_loss t) ts))),
          average_loss =
            (if filter (\<lambda>t. profit_loss t < 0) ts = [] then 0
             else sum_list (map (\<lambda>t. \<bar>profit_loss t\<bar>) (filter (\<lambda>t. profit_loss t < 0) ts)) /
                  real (length (filter (\<lambda>t. profit_loss t < 0) ts))),
          best_conditions = take 3 (ranked_labels ts),
          pattern_insights = map (insight_text ts) (take 3 (ranked_labels ts))\<rparr>"
  have run: "analyze_performance ts = Inr ?r"
    by (rule analyze_performance_nonempty [OF assms])
  have best: "best_conditions ?r = take 3 (ranked_labels ts)"
    by simp
  have len: "length (best_conditions ?r) = min 3 (card (set (all_labels ts)))"
    by (simp add: length_ranked_labels min.commute)
  have top: "\<forall>a\<in>set (best_conditions ?r). \<forall>b\<in>set (all_labels ts) - set (best_conditions ?r).
                label_win_rate ts b \<le> label_win_rate ts a"
  proof (intro ballI)
    fix a b
    assume a: "a \<in> set (best_conditions ?r)"
      and b: "b \<in> set (all_labels ts) - set (best_conditions ?r)"
    from a have a': "a \<in> set (take 3 (ranked_labels ts))" by simp
    from b have b1: "b \<in> set (ranked_labels ts)" by (simp add: set_ranked_labels)
    from b have b2: "b \<notin> set (take 3 (ranked_labels ts))" by simp
    show "label_win_rate ts b \<le> label_win_rate ts a"
      by (rule take_dominates [OF ranked_labels_descending a' b1 b2])
  qed
  have ins: "pattern_insights ?r =
             map (\<lambda>l. ''Best win rate in '' @ l @ '': '' @
                      format_1f (round_double (round_double (label_win_rate ts l) * 100)) @ ''%'')
               (best_conditions ?r)"
    by (simp add: insight_text_def)
  have printed: "\<exists>q. ''Best win rate in '' @ l @ '': '' @
                      format_1f (round_double (round_double (label_win_rate ts l) * 100)) @ ''%'' =
                    ''Best win rate in '' @ l @ '': '' @ show_nat (q div 10) @ ''.'' @
                      [digit_char (q mod 10)] @ ''%'' \<and>
                    read_nat (show_nat (q div 10)) = q div 10 \<and>
                    digit_val (digit_char (q mod 10)) = q mod 10 \<and>
                    \<bar>real q / 10 - label_win_rate ts l * 100\<bar> \<le> 1 / 20 + 1 / 2 ^ 44" for l
    using insight_text_shape [of ts l] by (simp only: insight_text_def)
  have rate: "label_win_rate ts l =
                  real (count_list (all_labels (filter (\<lambda>t. 0 < profit_loss t) ts)) l) /
                  real (count_list (all_labels ts) l)" for l
    by (rule label_win_rate_def)
  have spec: "(\<forall>t\<in>set ts. distinct (market_conditions t)) \<longrightarrow>
              (\<forall>l. label_win_rate ts l = spec_label_win_rate ts l)"
    by (simp add: label_win_rate_distinct)
  show ?thesis
    apply (rule exI [of _ ?r])
    apply (intro conjI)
               apply (rule run)
              apply (rule best)
             apply (rule len)
            apply (rule distinct_ranked_labels)
           apply (rule set_ranked_labels)
          apply (rule ranked_labels_descending)
         apply (rule allI, rule ranked_labels_stable)
        apply (rule top)
       apply (rule ins)
      apply (rule allI, rule printed)
     apply (rule allI, rule rate)
    apply (rule spec)
    done
qed

theorem best_conditions_ranking_witness:
  "rate_trades \<noteq> [] \<and> tie_trades \<noteq> [] \<and>
   map (\<lambda>t. distinct (market_conditions t)) rate_trades = [True, True, True] \<and>
   (\<exists>r. analyze_performance rate_trades = Inr r \<and>
        best_conditions r = [''b'', ''a'', ''c''] \<and>
        pattern_insights r =
          [''Best win rate in b: 100.0%'', ''Best win rate in a: 66.7%'',
           ''Best win rate in c: 50.0%'']) \<and>
   label_win_rate rate_trades ''a'' = 2 / 3 \<and>
   spec_label_win_rate rate_trades ''a'' = 2 / 3 \<and>
   (\<exists>r. analyze_performance tie_trades = Inr r \<and> best_conditions r = [''c'', ''d'', ''e''])"
proof -
  have ne: "rate_trades \<noteq> []" and ne': "tie_trades \<noteq> []"
    by (simp_all add: rate_trades_def tie_trades_def)
  have dm: "map (\<lambda>t. distinct (market_conditions t)) rate_trades = [True, True, True]"
    by (simp add: rate_trades_def)
  have d: "\<forall>t\<in>set rate_trades. distinct (market_conditions t)"
    by (simp add: rate_trades_def)
  from best_conditions_ranking [OF ne]
  obtain r where run: "analyze_performance rate_trades = Inr r"
    and best: "best_conditions r = take 3 (ranked_labels rate_trades)"
    and ins: "pattern_insights r =
             map (\<lambda>l. ''Best win rate in '' @ l @ '': '' @
                      format_1f (round_double (round_double (label_win_rate rate_trades l) * 100)) @ ''%'')
               (best_conditions r)"
    and spec: "(\<forall>t\<in>set rate_trades. distinct (market_conditions t)) \<longrightarrow>
              (\<forall>l. label_win_rate rate_trades l = spec_label_win_rate rate_trades l)"
    by (elim exE conjE)
  have b: "best_conditions r = [''b'', ''a'', ''c'']"
    by (simp add: best rate_ranked)
  have i: "pattern_insights r =
          [''Best win rate in b: 100.0%'', ''Best win rate in a: 66.7%'',
           ''Best win rate in c: 50.0%'']"
    by (simp add: ins b rate_rates printed_rates)
  have s: "spec_label_win_rate rate_trades ''a'' = 2 / 3"
    using spec d rate_rates(1) by simp
  from best_conditions_ranking [OF ne']
  obtain r' where run': "analyze_performance tie_trades = Inr r'"
    and best': "best_conditions r' = take 3 (ranked_labels tie_trades)"
    by (elim exE conjE)
  have b': "best_conditions r' = [''c'', ''d'', ''e'']"
    by (simp add: best' tie_ranked)
  show ?thesis
    using ne ne' dm run b i rate_rates(1) s run' b' by blast
qed

theorem best_conditions_by_trades_counterexample:
  "analyze_performance rank_trades =
     Inr \<lparr>win_rate = 3 / 5, profit_factor = Fin (3 / 2), average_win = 10, average_loss = 10,
          best_conditions = [''x'', ''y''],
          pattern_insights = [''Best win rate in x: 66.7%'', ''Best win rate in y: 60.0%'']\<rparr> \<and>
   spec_label_win_rate rank_trades ''x'' = 1 / 2 \<and>
   spec_label_win_rate rank_trades ''y'' = 3 / 5"
  by (simp add: rank_trades_def trade0_def profit_loss_def condition_performance_def
        analyze_performance_def bind_err_def truediv_def rate_key_def insight_def sum_bools_def
        sorted_reverse_def Let_def spec_label_win_rate_def)
     (simp add: float_eval)

text \<open>
  C5. For every label that occurs in the trades, \<open>condition_performance\<close> has exactly one
  entry, and the rate the ranking computes from it is the number of occurrences of the
  label in the lists of the trades with a positive profit over the number of its
  occurrences in the lists of all trades: a trade contributes once for each time it lists
  the label. When no trade lists a label twice, this is the number of winning trades that
  carry the label over the number of trades that carry it.
\<close>

theorem label_win_rate_occurrences:
  assumes "l \<in> set (all_labels ts)"
  shows "ts \<noteq> [] \<and>
         map fst (condition_performance ts) = first_seen (all_labels ts) \<and>
         (\<exists>vs. (l, vs) \<in> set (condition_performance ts) \<and>
               (\<forall>vs'. (l, vs') \<in> set (condition_performance ts) \<longrightarrow> vs' = vs) \<and>
               0 < count_list (all_labels ts) l \<and>
               rate_key (l, vs) =
                 Inr (real (count_list (all_labels (filter (\<lambda>t. 0 < profit_loss t) ts)) l) /
                      real (count_list (all_labels ts) l)) \<and>
               ((\<forall>t\<in>set ts. distinct (market_conditions t)) \<longrightarrow>
                  rate_key (l, vs) = Inr (spec_label_win_rate ts l)))"
proof -
  let ?vs = "outcomes (events ts) l"
  have ne: "ts \<noteq> []"
    using assms by (auto simp: all_labels_def)
  have keys: "map fst (condition_performance ts) = first_seen (all_labels ts)"
    by (simp add: condition_performance_eq comp_def)
  have mem: "(l, ?vs) \<in> set (condition_performance ts)"
    using assms by (auto simp: condition_performance_eq set_first_seen)
  have uniq: "\<forall>vs'. (l, vs') \<in> set (condition_performance ts) \<longrightarrow> vs' = ?vs"
    by (auto simp: condition_performance_eq)
  have "count_list (all_labels ts) l \<noteq> 0"
    using assms by (simp add: count_list_0_iff)
  then have pos: "0 < count_list (all_labels ts) l"
    by simp
  have rate: "rate_key (l, ?vs) = Inr (label_win_rate ts l)"
    by (rule rate_key_item [OF assms])
  have spec: "(\<forall>t\<in>set ts. distinct (market_conditions t)) \<longrightarrow>
                  rate_key (l, ?vs) = Inr (spec_label_win_rate ts l)"
    by (simp add: rate label_win_rate_distinct)
  show ?thesis
    apply (intro conjI exI [of _ ?vs])
          apply (rule ne)
         apply (rule keys)
        apply (rule mem)
       apply (rule uniq)
      apply (rule pos)
     apply (simp only: rate label_win_rate_def)
    apply (rule spec)
    done
qed

theorem label_win_rate_occurrences_witness:
  "''b'' \<in> set (all_labels tie_trades) \<and>
   map (\<lambda>t. distinct (market_conditions t)) tie_trades = [True, True, True] \<and>
   (\<exists>vs. (''b'', vs) \<in> set (condition_performance tie_trades) \<and>
         rate_key (''b'', vs) = Inr (1 / 2) \<and>
         rate_key (''b'', vs) = Inr (spec_label_win_rate tie_trades ''b''))"
proof -
  have b: "''b'' \<in> set (all_labels tie_trades)"
    by (simp add: all_labels_def tie_trades_def)
  have d: "\<forall>t\<in>set tie_trades. distinct (market_conditions t)"
    by (simp add: tie_trades_def)
  have dm: "map (\<lambda>t. distinct (market_conditions t)) tie_trades = [True, True, True]"
    by (simp add: tie_trades_def)
  have c: "count_list (all_labels tie_trades) ''b'' = 2"
    "count_list (all_labels (filter (\<lambda>t. 0 < profit_loss t) tie_trades)) ''b'' = 1"
    by (simp_all add: all_labels_def tie_trades_def trade0_def profit_loss_def)
  from label_win_rate_occurrences [OF b]
  obtain vs where mem: "(''b'', vs) \<in> set (condition_performance tie_trades)"
    and rate: "rate_key (''b'', vs) =
                 Inr (real (count_list (all_labels (filter (\<lambda>t. 0 < profit_loss t) tie_trades)) ''b'') /
                      real (count_list (all_labels tie_trades) ''b''))"
    and spec: "(\<forall>t\<in>set tie_trades. distinct (market_conditions t)) \<longrightarrow>
                  rate_key (''b'', vs) = Inr (spec_label_win_rate tie_trades ''b'')"
    by (elim exE conjE)
  have "rate_key (''b'', vs) = Inr (1 / 2)"
    by (simp add: rate c)
  moreover have "rate_key (''b'', vs) = Inr (spec_label_win_rate tie_trades ''b'')"
    using spec d by simp
  ultimately show ?thesis
    using b dm mem by blast
qed

theorem label_win_rate_trades_counterexample:
  "dup_trades \<noteq> [] \<and>
   condition_performance dup_trades = [(''x'', [True, True, False])] \<and>
   rate_key (''x'', [True, True, False]) = Inr (2 / 3) \<and>
   spec_label_win_rate dup_trades ''x'' = 1 / 2 \<and>
   rate_key (''x'', [True, True, False]) \<noteq> Inr (spec_label_win_rate dup_trades ''x'')"
  by (simp add: dup_trades_def trade0_def profit_loss_def condition_performance_def
        rate_key_def truediv_def sum_bools_def spec_label_win_rate_def)

text \<open>
  C6. The analysis fails exactly on the empty list of trades, and then with the HTTP
  exception of status 404 and detail ``No trades found''; on a non-empty list it returns a
  report.
\<close>

theorem analyze_performance_error_iff:
  "(analyze_performance ts = Inl (HTTPException 404 ''No trades found'') \<longleftrightarrow> ts = []) \<and>
   ((\<exists>e. analyze_performance ts = Inl e) \<longleftrightarrow> ts = []) \<and>
   ((\<exists>r. analyze_performance ts = Inr r) \<longleftrightarrow> ts \<noteq> [])"
proof (cases "ts = []")
  case True
  then show ?thesis by (simp add: analyze_performance_def)
next
  case False
  then show ?thesis by (simp add: analyze_performance_nonempty)
qed

theorem analyze_performance_error_iff_witness:
  "analyze_performance [] = Inl (HTTPException 404 ''No trades found'') \<and>
   (\<exists>r. analyze_performance [trade0] = Inr r) \<and>
   analyze_performance [trade0] \<noteq> Inl (HTTPException 404 ''No trades found'')"
  using analyze_performance_error_iff [of "[]"] analyze_performance_error_iff [of "[trade0]"]
  by simp

text \<open>
  C7. The pattern analysis fails with the HTTP exception of status 400 and detail ``Need at
  least 10 trades for pattern analysis'' exactly when there are fewer than 10 trades; it
  does so on 9 trades. On 10 or more trades the guard passes: the result is a report
  exactly when fitting the classifier returns, and the \<open>ValueError\<close> of the classifier
  otherwise.
\<close>

theorem analyze_patterns_error_iff:
  "(analyze_patterns set_iter clf ts =
      Inl (HTTPException 400 ''Need at least 10 trades for pattern analysis'') \<longleftrightarrow> length ts < 10) \<and>
   (length ts = 9 \<longrightarrow> analyze_patterns set_iter clf ts =
      Inl (HTTPException 400 ''Need at least 10 trades for pattern analysis'')) \<and>
   (10 \<le> length ts \<longrightarrow>
      (\<forall>msg. clf (features set_iter ts) (labels ts) = Inl msg \<longrightarrow>
             analyze_patterns set_iter clf ts = Inl (ValueError msg)) \<and>
      ((\<exists>r. analyze_patterns set_iter clf ts = Inr r) \<longleftrightarrow>
       (\<exists>scores. clf (features set_iter ts) (labels ts) = Inr scores)))"
  by (cases "clf (features set_iter ts) (labels ts)") (simp_all add: analyze_patterns_def Let_def)

theorem analyze_patterns_error_iff_witness:
  "length (butlast ten_trades) = 9 \<and> length ten_trades = 10 \<and> length big_trades = 10 \<and>
   analyze_patterns first_seen float32_clf (butlast ten_trades) =
     Inl (HTTPException 400 ''Need at least 10 trades for pattern analysis'') \<and>
   float32_clf (features first_seen ten_trades) (labels ten_trades) =
     Inr [1 / 5, 1 / 5, 1 / 5, 1 / 5, 1 / 5] \<and>
   (\<exists>r. analyze_patterns first_seen float32_clf ten_trades = Inr r) \<and>
   analyze_patterns first_seen float32_clf big_trades =
     Inl (ValueError ''Input X contains infinity or a value too large for dtype(float32).'')"
proof -
  have 9: "length (butlast ten_trades) = 9" and 10: "length ten_trades = 10"
    and b: "length big_trades = 10"
    by (simp_all add: big_trades_def ten_trades_def)
  show ?thesis
    using 9 10 b ten_fit big_fit
      analyze_patterns_error_iff [of first_seen float32_clf "butlast ten_trades"]
      analyze_patterns_error_iff [of first_seen float32_clf ten_trades]
      analyze_patterns_error_iff [of first_seen float32_clf big_trades]
    by simp
qed

theorem analyze_patterns_ten_counterexample:
  "length big_trades = 10 \<and>
   analyze_patterns first_seen float32_clf big_trades =
     Inl (ValueError ''Input X contains infinity or a value too large for dtype(float32).'')"
  by (simp add: analyze_patterns_def big_fit) (simp add: big_trades_def ten_trades_def)

text \<open>
  C8. With at least 10 trades, and a set iteration order that lists every label of the
  input once, the feature row of a trade is 1 or 0 for its trade type being ``long'', its
  position size, and one indicator per distinct label of the whole input, in the iteration
  order; the names are ``trade_type'', ``position_size'' and the labels in that same order,
  so that column and name agree at every index; and when the classifier returns, its
  importances are paired with these names, the report holding the five pairs of highest
  importance.
\<close>

theorem pattern_features_and_names:
  assumes "10 \<le> length ts"
    and "distinct (set_iter (all_labels ts))"
    and "set (set_iter (all_labels ts)) = set (all_labels ts)"
  shows "feature_names set_iter ts = [''trade_type'', ''position_size''] @ set_iter (all_labels ts) \<and>
         features set_iter ts =
           map (\<lambda>t. [if trade_type t = ''long'' then 1 else 0, position_size t] @
                    map (\<lambda>c. if c \<in> set (market_conditions t) then 1 else 0)
                      (set_iter (all_labels ts))) ts \<and>
         (\<forall>row\<in>set (features set_iter ts). length row = length (feature_names set_iter ts)) \<and>
         (\<forall>c\<in>set (all_labels ts).
            \<exists>!i. i < length (set_iter (all_labels ts)) \<and> set_iter (all_labels ts) ! i = c) \<and>
         (\<forall>i<length (set_iter (all_labels ts)). \<forall>t\<in>set ts.
            feature_names set_iter ts ! (2 + i) = set_iter (all_labels ts) ! i \<and>
            feature_row set_iter ts t ! (2 + i) =
              (if set_iter (all_labels ts) ! i \<in> set (market_conditions t) then 1 else 0)) \<and>
         (\<forall>scores. clf (features set_iter ts) (labels ts) = Inr scores \<longrightarrow>
            (\<exists>r. analyze_patterns set_iter clf ts = Inr r \<and>
                 important_factors r =
                   take 5 (sorted_reverse snd (zip (feature_names set_iter ts) scores)) \<and>
                 mset (importance (feature_names set_iter ts) scores) =
                   mset (zip (feature_names set_iter ts) scores)))"
proof -
  let ?order = "set_iter (all_labels ts)"
  have names: "feature_names set_iter ts = [''trade_type'', ''position_size''] @ ?order"
    by (simp add: feature_names_def union_conditions_all_labels)
  have feats: "features set_iter ts =
             map (\<lambda>t. [if trade_type t = ''long'' then 1 else 0, position_size t] @
                      map (\<lambda>c. if c \<in> set (market_conditions t) then 1 else 0) ?order) ts"
    by (simp add: features_def feature_row_def union_conditions_all_labels Let_def)
  have lens: "\<forall>row\<in>set (features set_iter ts). length row = length (feature_names set_iter ts)"
    by (auto simp: feats names)
  have uniq: "\<forall>c\<in>set (all_labels ts). \<exists>!i. i < length ?order \<and> ?order ! i = c"
  proof
    fix c assume "c \<in> set (all_labels ts)"
    then have "c \<in> set ?order" by (simp add: assms(3))
    then show "\<exists>!i. i < length ?order \<and> ?order ! i = c"
      by (rule distinct_index_unique [OF assms(2)])
  qed
  have align: "\<forall>i<length ?order. \<forall>t\<in>set ts.
              feature_names set_iter ts ! (2 + i) = ?order ! i \<and>
              feature_row set_iter ts t ! (2 + i) =
                (if ?order ! i \<in> set (market_conditions t) then 1 else 0)"
    by (simp add: names feature_row_def union_conditions_all_labels Let_def)
  have fit: "\<forall>scores. clf (features set_iter ts) (labels ts) = Inr scores \<longrightarrow>
            (\<exists>r. analyze_patterns set_iter clf ts = Inr r \<and>
                 important_factors r =
                   take 5 (sorted_reverse snd (zip (feature_names set_iter ts) scores)) \<and>
                 mset (importance (feature_names set_iter ts) scores) =
                   mset (zip (feature_names set_iter ts) scores))"
    using assms(1)
    by (simp add: analyze_patterns_def Let_def importance_def mset_sorted_reverse)
  show ?thesis
    apply (intro conjI)
         apply (rule names)
        apply (rule feats)
       apply (rule lens)
      apply (rule uniq)
     apply (rule align)
    apply (rule fit)
    done
qed

theorem pattern_features_and_names_witness:
  "10 \<le> length ten_trades \<and>
   distinct (first_seen (all_labels ten_trades)) \<and>
   set (first_seen (all_labels ten_trades)) = set (all_labels ten_trades) \<and>
   float32_clf (features first_seen ten_trades) (labels ten_trades) =
     Inr [1 / 5, 1 / 5, 1 / 5, 1 / 5, 1 / 5] \<and>
   feature_names first_seen ten_trades = [''trade_type'', ''position_size'', ''range'', ''trend'', ''news''] \<and>
   take 2 (features first_seen ten_trades) = [[1, 1, 1, 0, 0], [1, 1, 0, 1, 1]] \<and>
   (\<exists>r. analyze_patterns first_seen float32_clf ten_trades = Inr r \<and>
        important_factors r =
          [(''trade_type'', 1 / 5), (''position_size'', 1 / 5), (''range'', 1 / 5),
           (''trend'', 1 / 5), (''news'', 1 / 5)])"
proof -
  have len: "10 \<le> length ten_trades"
    by (simp add: ten_trades_def)
  have d: "distinct (first_seen (all_labels ten_trades))"
    by (rule distinct_first_seen)
  have s: "set (first_seen (all_labels ten_trades)) = set (all_labels ten_trades)"
    by (rule set_first_seen)
  note all = pattern_features_and_names
    [where ts = ten_trades and set_iter = first_seen and clf = float32_clf, OF len d s]
  have names: "feature_names first_seen ten_trades =
                  [''trade_type'', ''position_size''] @ first_seen (all_labels ten_trades)"
    and fit: "\<forall>scores. float32_clf (features first_seen ten_trades) (labels ten_trades) = Inr scores \<longrightarrow>
            (\<exists>r. analyze_patterns first_seen float32_clf ten_trades = Inr r \<and>
                 important_factors r =
                   take 5 (sorted_reverse snd (zip (feature_names first_seen ten_trades) scores)) \<and>
                 mset (importance (feature_names first_seen ten_trades) scores) =
                   mset (zip (feature_names first_seen ten_trades) scores))"
     apply (rule all [THEN conjunct1])
    apply (rule all [THEN conjunct2, THEN conjunct2, THEN conjunct2, THEN conjunct2, THEN conjunct2])
    done
  have n: "feature_names first_seen ten_trades =
             [''trade_type'', ''position_size'', ''range'', ''trend'', ''news'']"
    by (simp add: names ten_order)
  have f: "take 2 (features first_seen ten_trades) = [[1, 1, 1, 0, 0], [1, 1, 0, 1, 1]]"
    by (simp add: ten_features)
  from fit ten_fit obtain r where run: "analyze_patterns first_seen float32_clf ten_trades = Inr r"
    and fac: "important_factors r =
                take 5 (sorted_reverse snd (zip (feature_names first_seen ten_trades)
                                              [1 / 5, 1 / 5, 1 / 5, 1 / 5, 1 / 5]))"
    by blast
  have "important_factors r =
          [(''trade_type'', 1 / 5), (''position_size'', 1 / 5), (''range'', 1 / 5),
           (''trend'', 1 / 5), (''news'', 1 / 5)]"
    by (simp add: fac n sorted_reverse_def)
  then show ?thesis
    using len d s ten_fit n f run by blast
qed

theorem feature_names_counterexample:
  "10 \<le> length ten_trades \<and>
   feature_names first_seen ten_trades =
     [''trade_type'', ''position_size'', ''range'', ''trend'', ''news''] \<and>
   feature_names first_seen ten_trades \<noteq>
     [''trade_direction'', ''position_size''] @ first_seen (all_labels ten_trades)"
  by (simp add: feature_names_def union_conditions_all_labels ten_order) (simp add: ten_trades_def)



text \<open>
  C10. Every trade type other than the string ``long'' is treated as a short position, among
  them ``short'', ``LONG'' and ``Long'': the profit is minus the price difference times the
  position size. Creating a trade stores it whatever its trade type.
\<close>

theorem profit_loss_not_long_is_short:
  "(trade_type t \<noteq> ''long'' \<longrightarrow>
      profit_loss t = - (exit_price t - entry_price t) * position_size t) \<and>
   (trade_type t \<in> {''short'', ''LONG'', ''Long''} \<longrightarrow>
      profit_loss t = - (exit_price t - entry_price t) * position_size t) \<and>
   (trade_type t = ''long'' \<longrightarrow>
      profit_loss t = (exit_price t - entry_price t) * position_size t) \<and>
   create_trade t s = (t, s\<lparr>trades := trades s @ [t]\<rparr>)"
  by (auto simp: profit_loss_def create_trade_def)

theorem profit_loss_not_long_is_short_witness:
  "trade_type (trade0\<lparr>trade_type := ''LONG''\<rparr>) \<noteq> ''long'' \<and>
   profit_loss (trade0\<lparr>trade_type := ''LONG''\<rparr>) = - 10 \<and>
   profit_loss (trade0\<lparr>trade_type := ''short''\<rparr>) = - 10 \<and>
   profit_loss trade0 = 10 \<and>
   trades (snd (create_trade (trade0\<lparr>trade_type := ''sideways''\<rparr>) \<lparr>trades = [], conditions = []\<rparr>)) =
     [trade0\<lparr>trade_type := ''sideways''\<rparr>]"
  using profit_loss_not_long_is_short [of "trade0\<lparr>trade_type := ''LONG''\<rparr>" "\<lparr>trades = [], conditions = []\<rparr>"]
        profit_loss_not_long_is_short [of "trade0\<lparr>trade_type := ''short''\<rparr>" "\<lparr>trades = [], conditions = []\<rparr>"]
        profit_loss_not_long_is_short [of "trade0" "\<lparr>trades = [], conditions = []\<rparr>"]
        profit_loss_not_long_is_short [of "trade0\<lparr>trade_type := ''sideways''\<rparr>" "\<lparr>trades = [], conditions = []\<rparr>"]
  by (simp add: trade0_def)

end
